theory Spec2Isabelle
  imports Main "HOL-Library.Word" "HOL-Library.Signed_Division"
begin

section \<open>Data model of the filter engine (jsonrpc/endpoints\_eth.go)\<close>

text \<open>
  Addresses are 20 bytes and hashes 32 bytes (go-ethereum's \<open>common.Address\<close> and
  \<open>common.Hash\<close>); block numbers are \<open>uint64\<close>. A \<open>time.Time\<close> is a point on a
  discrete clock.
\<close>

type_synonym address = "160 word"
type_synonym hash = "256 word"
type_synonym uint64 = "64 word"
type_synonym time = nat

text \<open>
  A Go call either returns or panics. Panics are values here: \<open>Panic v\<close> carries the
  value given to \<open>panic\<close> (printed by \<open>recover\<close>'s caller in \<open>parallelize\<close>).
\<close>

datatype 'a go = Panic string | Return 'a

text \<open>
  Modelled from the spec: the type \<open>types.BlockNumber\<close> is declared outside this file;
  the spec's data model gives a block reference as an explicit number or one of the
  symbolic references latest, pending and earliest.
\<close>

datatype BlockNumber = ExplicitNumber uint64 | Latest | Pending | Earliest

text \<open>The fields of go-ethereum's \<open>types.Log\<close> that this file reads, and its payload.\<close>

record Log =
  Address :: address
  Topics :: "hash list"
  Data :: "8 word list"

text \<open>
  \<open>LogFilter\<close>: pointers are options (\<open>nil\<close> is \<open>None\<close>), slices are lists.
\<close>

record LogFilter =
  BlockHash :: "hash option"
  FromBlock :: "BlockNumber option"
  ToBlock :: "BlockNumber option"
  Addresses :: "address list"
  Topics :: "hash list list"
  Since :: "time option"

text \<open>
  \<open>FilterType\<close> is a string type in Go, so a value outside the three declared
  constants is possible; \<open>FilterTypeOther\<close> stands for any such value (the
  \<open>default\<close> branch of a switch).
\<close>

datatype FilterType = FilterTypeBlock | FilterTypeLog | FilterTypePendingTx | FilterTypeOther

text \<open>
  \<open>Filter.Parameters\<close> is an \<open>interface{}\<close>; the code reads it with the type assertion
  \<open>filter.Parameters.(LogFilter)\<close>, which panics unless the dynamic value is a
  \<open>LogFilter\<close>. \<open>Some lf\<close> is a dynamic value of type \<open>LogFilter\<close>, \<open>None\<close> is anything
  else. \<open>WsConn\<close> is the handle of the bound connection, if any.
\<close>

record Filter =
  ID :: string
  Type :: FilterType
  Parameters :: "LogFilter option"
  LastPoll :: time
  WsConn :: "nat option"

record L2Block =
  NumberU64 :: uint64
  Hash :: hash

record NewL2BlockEvent =
  Block :: L2Block
  Logs :: "Log list"

definition maxTopics :: nat where
  "maxTopics = 4"

definition assertLogFilter :: "Filter \<Rightarrow> LogFilter go" where
  "assertLogFilter fltr =
     (case Parameters fltr of
        None \<Rightarrow> Panic ''interface conversion: interface {} is not jsonrpc.LogFilter''
      | Some logFilter \<Rightarrow> Return logFilter)"

section \<open>The log matcher: \<open>contains\<close> and \<open>filterLogs\<close>\<close>

primrec contains :: "'a list \<Rightarrow> 'a \<Rightarrow> bool" where
  "contains [] itemsToFind = False"
| "contains (item # items) itemsToFind =
     (if item = itemsToFind then True else contains items itemsToFind)"

text \<open>
  The labelled loop \<open>for i := 0; i < maxTopics; i++\<close> of \<open>filterLogs\<close>, entered with
  \<open>match = true\<close>; the result is the value of \<open>match\<close> when the loop is left.
\<close>

function checkTopics :: "LogFilter \<Rightarrow> Log \<Rightarrow> nat \<Rightarrow> bool" where
  "checkTopics logFilter l i =
     (if i < maxTopics then
        (if \<not> (length (Topics logFilter) > i) then True
         else if length (Topics logFilter ! i) = 0 then checkTopics logFilter l (i + 1)
         else if \<not> (length (Log.Topics l) > i) then False
         else if \<not> contains (Topics logFilter ! i) (Log.Topics l ! i) then False
         else checkTopics logFilter l (i + 1))
      else True)"
  by pat_completeness auto
termination
  by (relation "measure (\<lambda>(logFilter, l, i). maxTopics - i)") auto

declare checkTopics.simps [simp del]

text \<open>
  The body of \<open>for _, l := range logsToFilter\<close>; \<open>logs\<close> is the slice built so far and
  \<open>NewLog\<close> is \<open>types.NewLog\<close>, the conversion to the RPC log type (declared outside
  this file, so a parameter).
\<close>

fun filterLogsLoop ::
  "(Log \<Rightarrow> 'r) \<Rightarrow> LogFilter \<Rightarrow> Log list \<Rightarrow> 'r list \<Rightarrow> 'r list" where
  "filterLogsLoop NewLog logFilter [] logs = logs"
| "filterLogsLoop NewLog logFilter (l # logsToFilter) logs =
     (if length (Addresses logFilter) > 0 \<and> \<not> contains (Addresses logFilter) (Address l)
      then filterLogsLoop NewLog logFilter logsToFilter logs
      else if (if length (Topics logFilter) > 0 then checkTopics logFilter l 0 else True)
      then filterLogsLoop NewLog logFilter logsToFilter (logs @ [NewLog l])
      else filterLogsLoop NewLog logFilter logsToFilter logs)"

definition filterLogs :: "(Log \<Rightarrow> 'r) \<Rightarrow> Log list \<Rightarrow> Filter \<Rightarrow> 'r list go" where
  "filterLogs NewLog logsToFilter fltr =
     (case assertLogFilter fltr of
        Panic v \<Rightarrow> Panic v
      | Return logFilter \<Rightarrow> Return (filterLogsLoop NewLog logFilter logsToFilter []))"

text \<open>
  The matcher as a property of the slots: the address test, and one test for each topic
  slot the filter defines.
\<close>

definition slotAccepts :: "LogFilter \<Rightarrow> Log \<Rightarrow> nat \<Rightarrow> bool" where
  "slotAccepts S L i \<longleftrightarrow>
     Topics S ! i = [] \<or> (i < length (Log.Topics L) \<and> Log.Topics L ! i \<in> set (Topics S ! i))"

definition addressAccepts :: "LogFilter \<Rightarrow> Log \<Rightarrow> bool" where
  "addressAccepts S L \<longleftrightarrow> Addresses S = [] \<or> Address L \<in> set (Addresses S)"

definition MatchesReference :: "LogFilter \<Rightarrow> Log \<Rightarrow> bool" where
  "MatchesReference S L \<longleftrightarrow>
     addressAccepts S L \<and> list_all (slotAccepts S L) [0 ..< length (Topics S)]"

text \<open>The same, with the slots limited to the first \<open>maxTopics\<close> positions.\<close>

definition MatchesWindow :: "LogFilter \<Rightarrow> Log \<Rightarrow> bool" where
  "MatchesWindow S L \<longleftrightarrow>
     addressAccepts S L \<and> list_all (slotAccepts S L) [0 ..< min maxTopics (length (Topics S))]"

text \<open>
  The matcher in the words of the specification (4.1). Address check: if the spec's
  addresses are non-empty, the log's address must be a member. Topic check: iterate
  the slot positions 0 to 3; stop and accept as soon as the filter defines no slot at
  the current position; for a defined slot, an empty set is a wildcard, otherwise the
  log must have a topic at that position and it must be a member of the slot's set.
\<close>

fun specTopicCheck :: "LogFilter \<Rightarrow> Log \<Rightarrow> nat list \<Rightarrow> bool" where
  "specTopicCheck S L [] = True"
| "specTopicCheck S L (i # positions) =
     (if \<not> i < length (Topics S) then True
      else if Topics S ! i = [] then specTopicCheck S L positions
      else if \<not> i < length (Log.Topics L) then False
      else if Log.Topics L ! i \<in> set (Topics S ! i) then specTopicCheck S L positions
      else False)"

definition SpecMatches :: "LogFilter \<Rightarrow> Log \<Rightarrow> bool" where
  "SpecMatches S L \<longleftrightarrow>
     (Addresses S = [] \<or> Address L \<in> set (Addresses S)) \<and> specTopicCheck S L [0, 1, 2, 3]"

section \<open>Collaborators and RPC results\<close>

text \<open>
  \<open>ErrNotFound\<close> is the storage's sentinel error; \<open>ErrOther\<close> is any error for which
  \<open>errors.Is(err, ErrNotFound)\<close> is false.
\<close>

datatype storage_error = ErrNotFound | ErrOther string

datatype ErrorCode = DefaultErrorCode

datatype rpc_error = RPCError ErrorCode string

text \<open>
  The \<open>interface{}\<close> results of the filter endpoints: \<open>nil\<close>, a slice of hashes, or a
  slice of RPC logs (\<open>'r\<close> is \<open>types.Log\<close>).
\<close>

datatype 'r rpc_value = Nil | Hashes "hash list" | LogList "'r list"

type_synonym 'r rpc_result = "rpc_error + 'r rpc_value"

text \<open>
  Modelled from the spec: \<open>RPCErrorResponse\<close> is declared outside this file. By the
  spec's propagation policy a failed poll returns a typed error to the calling RPC
  method: no result, and the RPC error of the given code and message (the cause
  \<open>err\<close> is only logged).
\<close>

definition RPCErrorResponse :: "ErrorCode \<Rightarrow> string \<Rightarrow> 'r rpc_result" where
  "RPCErrorResponse code message = Inl (RPCError code message)"

text \<open>
  The receiver \<open>e *EthEndpoints\<close> with the collaborator calls this file makes, as
  functions: the filter storage over a store \<open>'st\<close> (\<open>UpdateFilterLastPoll\<close> returns its
  error and the store it leaves), the chain state, the pool, and
  \<open>BlockNumber.GetNumericBlockNumber\<close> (called on a possibly nil receiver, hence the
  option).
\<close>

record 'st EthEndpoints =
  storage_GetFilter :: "'st \<Rightarrow> string \<Rightarrow> storage_error + Filter"
  storage_UpdateFilterLastPoll :: "'st \<Rightarrow> string \<Rightarrow> storage_error option \<times> 'st"
  state_GetL2BlockHashesSince :: "time \<Rightarrow> string + hash list"
  pool_GetPendingTxHashesSince :: "time \<Rightarrow> string + hash list"
  state_GetLogs :: "uint64 \<Rightarrow> uint64 \<Rightarrow> address list \<Rightarrow> hash list list \<Rightarrow> hash option \<Rightarrow>
    time option \<Rightarrow> string + Log list"
  GetNumericBlockNumber :: "BlockNumber option \<Rightarrow> rpc_error + uint64"

section \<open>Polling: \<open>GetFilterChanges\<close>, \<open>GetFilterLogs\<close>, \<open>internalGetLogs\<close>\<close>

definition updateFilterLastPoll :: "'st EthEndpoints \<Rightarrow> 'st \<Rightarrow> string \<Rightarrow> rpc_error option \<times> 'st" where
  "updateFilterLastPoll e st filterID =
     (case storage_UpdateFilterLastPoll e st filterID of
        (err, st') \<Rightarrow>
          (if err \<noteq> None \<and> err \<noteq> Some ErrNotFound
           then (Some (RPCError DefaultErrorCode
                   ''failed to update last time the filter changes were requested''), st')
           else (None, st')))"

text \<open>
  \<open>internalGetLogs\<close> returns the slice \<open>result\<close> (always a \<open>[]types.Log\<close>, so the
  caller's type assertion on it cannot fail) or an RPC error.
\<close>

definition internalGetLogs ::
  "'st EthEndpoints \<Rightarrow> (Log \<Rightarrow> 'r) \<Rightarrow> LogFilter \<Rightarrow> rpc_error + 'r list" where
  "internalGetLogs e NewLog fltr =
     (case (case FromBlock fltr of
              None \<Rightarrow> Inr 0
            | Some fb \<Rightarrow> GetNumericBlockNumber e (Some fb)) of
        Inl rpcErr \<Rightarrow> Inl rpcErr
      | Inr fromBlock \<Rightarrow>
          (case GetNumericBlockNumber e (ToBlock fltr) of
             Inl rpcErr \<Rightarrow> Inl rpcErr
           | Inr toBlock \<Rightarrow>
               (case state_GetLogs e fromBlock toBlock (Addresses fltr) (Topics fltr)
                       (BlockHash fltr) (Since fltr) of
                  Inl err \<Rightarrow> Inl (RPCError DefaultErrorCode ''failed to get logs from state'')
                | Inr logs \<Rightarrow> Inr (map NewLog logs))))"

text \<open>
  \<open>GetFilterChanges\<close> returns its result, or panics on the type assertion of the
  \<open>Log\<close> branch, and leaves a store.
\<close>

definition GetFilterChanges ::
  "'st EthEndpoints \<Rightarrow> (Log \<Rightarrow> 'r) \<Rightarrow> 'st \<Rightarrow> string \<Rightarrow> 'r rpc_result go \<times> 'st" where
  "GetFilterChanges e NewLog st filterID =
     (case storage_GetFilter e st filterID of
        Inl err \<Rightarrow>
          (if err = ErrNotFound
           then (Return (RPCErrorResponse DefaultErrorCode ''filter not found''), st)
           else (Return (RPCErrorResponse DefaultErrorCode ''failed to get filter from storage''), st))
      | Inr fltr \<Rightarrow>
          (case Type fltr of
             FilterTypeBlock \<Rightarrow>
               (case state_GetL2BlockHashesSince e (LastPoll fltr) of
                  Inl err \<Rightarrow>
                    (Return (RPCErrorResponse DefaultErrorCode ''failed to get block hashes''), st)
                | Inr res \<Rightarrow>
                    (case updateFilterLastPoll e st (ID fltr) of
                       (Some rpcErr, st') \<Rightarrow> (Return (Inl rpcErr), st')
                     | (None, st') \<Rightarrow>
                         (if length res = 0 then (Return (Inr Nil), st')
                          else (Return (Inr (Hashes res)), st'))))
           | FilterTypePendingTx \<Rightarrow>
               (case pool_GetPendingTxHashesSince e (LastPoll fltr) of
                  Inl err \<Rightarrow>
                    (Return (RPCErrorResponse DefaultErrorCode
                       ''failed to get pending transaction hashes''), st)
                | Inr res \<Rightarrow>
                    (case updateFilterLastPoll e st (ID fltr) of
                       (Some rpcErr, st') \<Rightarrow> (Return (Inl rpcErr), st')
                     | (None, st') \<Rightarrow>
                         (if length res = 0 then (Return (Inr Nil), st')
                          else (Return (Inr (Hashes res)), st'))))
           | FilterTypeLog \<Rightarrow>
               (case assertLogFilter fltr of
                  Panic v \<Rightarrow> (Panic v, st)
                | Return filterParameters \<Rightarrow>
                    (case internalGetLogs e NewLog (filterParameters\<lparr>Since := Some (LastPoll fltr)\<rparr>) of
                       Inl err \<Rightarrow> (Return (Inl err), st)
                     | Inr res \<Rightarrow>
                         (case updateFilterLastPoll e st (ID fltr) of
                            (Some rpcErr, st') \<Rightarrow> (Return (Inl rpcErr), st')
                          | (None, st') \<Rightarrow>
                              (if length res = 0 then (Return (Inr Nil), st')
                               else (Return (Inr (LogList res)), st')))))
           | FilterTypeOther \<Rightarrow> (Return (Inr Nil), st)))"

text \<open>
  \<open>GetLogs\<close> runs \<open>internalGetLogs\<close> inside \<open>e.txMan.NewDbTxScope\<close>, which is declared
  outside this file: the parameter \<open>NewDbTxScope\<close> maps what the scoped function returns
  to what the scope returns.
\<close>

definition GetLogs ::
  "'st EthEndpoints \<Rightarrow> (Log \<Rightarrow> 'r) \<Rightarrow> ('r rpc_result \<Rightarrow> 'r rpc_result) \<Rightarrow> LogFilter \<Rightarrow> 'r rpc_result" where
  "GetLogs e NewLog NewDbTxScope fltr =
     NewDbTxScope (case internalGetLogs e NewLog fltr of
                     Inl rpcErr \<Rightarrow> Inl rpcErr
                   | Inr result \<Rightarrow> Inr (LogList result))"

text \<open>\<open>GetFilterLogs\<close> calls no mutator of the storage: the store is returned as it was.\<close>

definition GetFilterLogs ::
  "'st EthEndpoints \<Rightarrow> (Log \<Rightarrow> 'r) \<Rightarrow> ('r rpc_result \<Rightarrow> 'r rpc_result) \<Rightarrow> 'st \<Rightarrow> string \<Rightarrow>
   'r rpc_result go \<times> 'st" where
  "GetFilterLogs e NewLog NewDbTxScope st filterID =
     (case storage_GetFilter e st filterID of
        Inl err \<Rightarrow>
          (if err = ErrNotFound then (Return (Inr Nil), st)
           else (Return (RPCErrorResponse DefaultErrorCode ''failed to get filter from storage''), st))
      | Inr fltr \<Rightarrow>
          (if Type fltr \<noteq> FilterTypeLog then (Return (Inr Nil), st)
           else (case assertLogFilter fltr of
                   Panic v \<Rightarrow> (Panic v, st)
                 | Return filterParameters \<Rightarrow>
                     (Return (GetLogs e NewLog NewDbTxScope (filterParameters\<lparr>Since := None\<rparr>)), st))))"

section \<open>Push notification: \<open>shouldSkipLogFilter\<close> and the worker of \<open>notifyNewLogs\<close>\<close>

text \<open>
  The two range tests of \<open>shouldSkipLogFilter\<close>: each is true when the function
  returns \<open>true\<close> there (a failed resolution, logged, or a block out of range).
\<close>

definition fromBlockSkips :: "'st EthEndpoints \<Rightarrow> NewL2BlockEvent \<Rightarrow> LogFilter \<Rightarrow> bool" where
  "fromBlockSkips e event logFilter =
     (case FromBlock logFilter of
        None \<Rightarrow> False
      | Some fb \<Rightarrow>
          (case GetNumericBlockNumber e (Some fb) of
             Inl rpcErr \<Rightarrow> True
           | Inr fromBlock \<Rightarrow> (if NumberU64 (Block event) < fromBlock then True else False)))"

definition toBlockSkips :: "'st EthEndpoints \<Rightarrow> NewL2BlockEvent \<Rightarrow> LogFilter \<Rightarrow> bool" where
  "toBlockSkips e event logFilter =
     (case ToBlock logFilter of
        None \<Rightarrow> False
      | Some tb \<Rightarrow>
          (case GetNumericBlockNumber e (Some tb) of
             Inl rpcErr \<Rightarrow> True
           | Inr toBlock \<Rightarrow> (if NumberU64 (Block event) > toBlock then True else False)))"

text \<open>
  The hashes are compared through their hexadecimal strings, which are equal exactly
  when the hashes are.
\<close>

definition shouldSkipLogFilter :: "'st EthEndpoints \<Rightarrow> NewL2BlockEvent \<Rightarrow> Filter \<Rightarrow> bool go" where
  "shouldSkipLogFilter e event fltr =
     (case assertLogFilter fltr of
        Panic v \<Rightarrow> Panic v
      | Return logFilter \<Rightarrow>
          (case BlockHash logFilter of
             Some bh \<Rightarrow> (if bh \<noteq> Hash (Block event) then Return True else Return False)
           | None \<Rightarrow>
               (if fromBlockSkips e event logFilter then Return True
                else if toBlockSkips e event logFilter then Return True
                else Return False)))"

text \<open>
  \<open>json.Marshal\<close> is the parameter \<open>Marshal\<close>; when it fails the error is logged and the
  \<open>nil\<close> data is enqueued all the same.
\<close>

definition marshalled :: "('r \<Rightarrow> string + 8 word list) \<Rightarrow> 'r \<Rightarrow> 8 word list" where
  "marshalled Marshal l = (case Marshal l of Inl err \<Rightarrow> [] | Inr data \<Rightarrow> data)"

text \<open>
  The function \<open>notifyNewLogs\<close> gives to \<open>parallelize\<close>, run on one chunk of filters. It
  yields the calls of \<open>EnqueueSubscriptionDataToBeSent\<close> it made, in order, each as the
  filter's ID with the data, and how it ended. The \<open>return\<close> under
  \<open>shouldSkipLogFilter\<close> leaves the function, and with it the chunk.
\<close>

fun notifyNewLogsWorker ::
  "'st EthEndpoints \<Rightarrow> (Log \<Rightarrow> 'r) \<Rightarrow> ('r \<Rightarrow> string + 8 word list) \<Rightarrow> NewL2BlockEvent \<Rightarrow>
   Filter list \<Rightarrow> (string \<times> 8 word list) list \<times> unit go" where
  "notifyNewLogsWorker e NewLog Marshal event [] = ([], Return ())"
| "notifyNewLogsWorker e NewLog Marshal event (fltr # filters) =
     (case shouldSkipLogFilter e event fltr of
        Panic v \<Rightarrow> ([], Panic v)
      | Return skip \<Rightarrow>
          (if skip then ([], Return ())
           else (case filterLogs NewLog (Logs event) fltr of
                   Panic v \<Rightarrow> ([], Panic v)
                 | Return logs \<Rightarrow>
                     (case notifyNewLogsWorker e NewLog Marshal event filters of
                        (sent, outcome) \<Rightarrow>
                          (map (\<lambda>l. (ID fltr, marshalled Marshal l)) logs @ sent, outcome)))))"

section \<open>The worker pool: \<open>parallelize\<close>\<close>

text \<open>
  Go's \<open>int\<close> is modelled by \<open>int\<close>: the products of the loop stay below
  \<open>len(items) + maxWorkers\<close>, far from the 64-bit bound. \<open>/\<close> and \<open>%\<close> truncate
  towards zero (\<open>sdiv\<close>, \<open>smod\<close>) and panic on a zero divisor.

  \<open>items[lo:hi]\<close> panics unless \<open>0 \<le> lo \<le> hi\<close>; \<open>hi\<close> has been clipped to
  \<open>len(items)\<close> by the caller.
\<close>

definition slice :: "'a list \<Rightarrow> int \<Rightarrow> int \<Rightarrow> 'a list go" where
  "slice items lo hi =
     (if lo < 0 \<or> hi < lo then Panic ''runtime error: slice bounds out of range''
      else Return (take (nat (hi - lo)) (drop (nat lo) items)))"

text \<open>
  The loop \<open>for worker := 0; worker < workersCount; worker++\<close>: the jobs it starts, each
  the worker's number with its \<open>jobItems\<close>, in the order they are started.
\<close>

function parallelizeLoop :: "int \<Rightarrow> int \<Rightarrow> int \<Rightarrow> 'a list \<Rightarrow> (int \<times> 'a list) list go" where
  "parallelizeLoop workersCount jobSize worker items =
     (if worker < workersCount then
        (if worker * jobSize > int (length items)
         then parallelizeLoop workersCount jobSize (worker + 1) items
         else (case slice items (worker * jobSize)
                      (if (worker + 1) * jobSize > int (length items) then int (length items)
                       else (worker + 1) * jobSize) of
                 Panic v \<Rightarrow> Panic v
               | Return jobItems \<Rightarrow>
                   (case parallelizeLoop workersCount jobSize (worker + 1) items of
                      Panic v \<Rightarrow> Panic v
                    | Return jobs \<Rightarrow> Return ((worker, jobItems) # jobs))))
      else Return [])"
  by pat_completeness auto
termination
  by (relation "measure (\<lambda>(workersCount, jobSize, worker, items). nat (workersCount - worker))") auto

declare parallelizeLoop.simps [simp del]

definition parallelizeJobs :: "int \<Rightarrow> 'a list \<Rightarrow> (int \<times> 'a list) list go" where
  "parallelizeJobs maxWorkers items =
     (if length items = 0 then Return []
      else
        (let workersCount = (if maxWorkers > int (length items) then int (length items)
                             else maxWorkers)
         in if workersCount = 0 then Panic ''runtime error: integer divide by zero''
            else
              (let jobSize = int (length items) sdiv workersCount;
                   rest = int (length items) smod workersCount
               in parallelizeLoop workersCount (if rest > 0 then jobSize + 1 else jobSize) 0 items)))"

text \<open>
  A call of \<open>fn\<close> yields the effects it had (here: the data it enqueued) and how it
  ended. The goroutine of one job runs \<open>fn\<close> under the deferred function that calls
  \<open>recover\<close> and prints a panic's value: it yields the effects, what was printed, and
  always ends by returning.
\<close>

definition goroutine ::
  "(int \<Rightarrow> 'a list \<Rightarrow> 'o list \<times> unit go) \<Rightarrow> int \<Rightarrow> 'a list \<Rightarrow> ('o list \<times> string list) \<times> unit go" where
  "goroutine fn worker filteredItems =
     (case fn worker filteredItems of
        (sent, Panic err) \<Rightarrow> ((sent, [err]), Return ())
      | (sent, Return u) \<Rightarrow> ((sent, []), Return ()))"

text \<open>
  \<open>wg.Wait()\<close>: the caller goes on when every goroutine has ended. A goroutine that
  ends in a panic takes the whole process down, the caller included.
\<close>

fun waitAll :: "('x \<times> unit go) list \<Rightarrow> 'x list go" where
  "waitAll [] = Return []"
| "waitAll ((x, Panic v) # rs) = Panic v"
| "waitAll ((x, Return u) # rs) =
     (case waitAll rs of Panic v \<Rightarrow> Panic v | Return xs \<Rightarrow> Return (x # xs))"

text \<open>
  \<open>parallelize\<close>: for each job in turn, the effects of its goroutine and what it
  printed. The goroutines run concurrently; nothing is said about the order of effects
  of different jobs.
\<close>

definition parallelize ::
  "int \<Rightarrow> 'a list \<Rightarrow> (int \<Rightarrow> 'a list \<Rightarrow> 'o list \<times> unit go) \<Rightarrow> ('o list \<times> string list) list go" where
  "parallelize maxWorkers items fn =
     (case parallelizeJobs maxWorkers items of
        Panic v \<Rightarrow> Panic v
      | Return jobs \<Rightarrow> waitAll (map (\<lambda>(worker, jobItems). goroutine fn worker jobItems) jobs))"

text \<open>
  The fan-out of \<open>notifyNewLogs\<close> over the filters the storage returns, with
  \<open>maxWorkers = 16\<close>.
\<close>

definition notifyNewLogs ::
  "'st EthEndpoints \<Rightarrow> (Log \<Rightarrow> 'r) \<Rightarrow> ('r \<Rightarrow> string + 8 word list) \<Rightarrow> NewL2BlockEvent \<Rightarrow>
   Filter list \<Rightarrow> ((string \<times> 8 word list) list \<times> string list) list go" where
  "notifyNewLogs e NewLog Marshal event filters =
     parallelize 16 filters (\<lambda>worker filters. notifyNewLogsWorker e NewLog Marshal event filters)"

text \<open>The spec's partition size: the ceiling of \<open>N / workers\<close>.\<close>

definition ceilDiv :: "nat \<Rightarrow> nat \<Rightarrow> nat" where
  "ceilDiv n workers = (n + workers - 1) div workers"

section \<open>Concrete filters, logs and events\<close>

definition logFilterOf :: "string \<Rightarrow> LogFilter \<Rightarrow> Filter" where
  "logFilterOf name S =
     \<lparr>ID = name, Type = FilterTypeLog, Parameters = Some S, LastPoll = 0, WsConn = Some 0\<rparr>"

definition anySpec :: LogFilter where
  "anySpec = \<lparr>BlockHash = None, FromBlock = None, ToBlock = None, Addresses = [],
     Topics = [], Since = None\<rparr>"

text \<open>Address \<open>0xAA\<close>, any first topic, second topic 7.\<close>

definition addrSpec :: LogFilter where
  "addrSpec = anySpec\<lparr>Addresses := [0xAA], Topics := [[], [7]]\<rparr>"

definition logAA :: Log where
  "logAA = \<lparr>Address = 0xAA, Topics = [1, 7], Data = [0xA]\<rparr>"

definition logBB :: Log where
  "logBB = \<lparr>Address = 0xBB, Topics = [1, 7], Data = [0xB]\<rparr>"

text \<open>
  A chain state whose latest block is 10 and that cannot resolve \<open>pending\<close>; a storage
  kept as a list of filters, whose cursor update sets \<open>LastPoll\<close> to 100; block and
  pending-transaction queries that fail for the cursor 0; a log query that filters by
  address and not by topics.
\<close>

definition resolveExample :: "BlockNumber option \<Rightarrow> rpc_error + uint64" where
  "resolveExample b =
     (case b of
        None \<Rightarrow> Inr 10
      | Some (ExplicitNumber n) \<Rightarrow> Inr n
      | Some Latest \<Rightarrow> Inr 10
      | Some Pending \<Rightarrow> Inl (RPCError DefaultErrorCode ''not synchronized'')
      | Some Earliest \<Rightarrow> Inr 0)"

definition exampleEndpoints :: "Filter list EthEndpoints" where
  "exampleEndpoints =
     \<lparr>storage_GetFilter = (\<lambda>st filterID.
          case find (\<lambda>f. ID f = filterID) st of None \<Rightarrow> Inl ErrNotFound | Some f \<Rightarrow> Inr f),
      storage_UpdateFilterLastPoll = (\<lambda>st filterID.
          (None, map (\<lambda>f. if ID f = filterID then f\<lparr>LastPoll := 100\<rparr> else f) st)),
      state_GetL2BlockHashesSince = (\<lambda>t. if t = 0 then Inl ''no connection'' else Inr [5, 6]),
      pool_GetPendingTxHashesSince = (\<lambda>t. if t = 0 then Inl ''no connection'' else Inr [8]),
      state_GetLogs = (\<lambda>fromBlock toBlock addresses topics blockHash since.
          if toBlock < fromBlock then Inl ''no connection''
          else Inr (filter (\<lambda>l. addresses = [] \<or> Address l \<in> set addresses) [logAA, logBB])),
      GetNumericBlockNumber = resolveExample\<rparr>"

definition marshalExample :: "Log \<Rightarrow> string + 8 word list" where
  "marshalExample l = Inr (Data l)"

text \<open>Specs for the skip test, and a spec asking for topic 9 in the first slot.\<close>

definition fromSevenSpec :: LogFilter where
  "fromSevenSpec = anySpec\<lparr>FromBlock := Some (ExplicitNumber 7), ToBlock := Some Latest\<rparr>"

definition hashAndRangeSpec :: LogFilter where
  "hashAndRangeSpec = anySpec\<lparr>BlockHash := Some 0x66, ToBlock := Some (ExplicitNumber 5)\<rparr>"

definition otherHashSpec :: LogFilter where
  "otherHashSpec = anySpec\<lparr>BlockHash := Some 0x55\<rparr>"

definition pendingSpec :: LogFilter where
  "pendingSpec = anySpec\<lparr>ToBlock := Some Pending\<rparr>"

definition topicNineSpec :: LogFilter where
  "topicNineSpec = anySpec\<lparr>Topics := [[9]]\<rparr>"

definition block6 :: L2Block where
  "block6 = \<lparr>NumberU64 = 6, Hash = 0x66\<rparr>"

definition event6 :: NewL2BlockEvent where
  "event6 = \<lparr>Block = block6, Logs = [logAA, logBB]\<rparr>"

definition pollStore :: "Filter list" where
  "pollStore =
     [(logFilterOf ''log'' topicNineSpec)\<lparr>LastPoll := 3\<rparr>,
      \<lparr>ID = ''blk'', Type = FilterTypeBlock, Parameters = None, LastPoll = 0, WsConn = None\<rparr>,
      \<lparr>ID = ''blk3'', Type = FilterTypeBlock, Parameters = None, LastPoll = 3, WsConn = None\<rparr>,
      \<lparr>ID = ''ptx'', Type = FilterTypePendingTx, Parameters = None, LastPoll = 0, WsConn = None\<rparr>,
      (logFilterOf ''pend'' pendingSpec)\<lparr>LastPoll := 3\<rparr>]"

text \<open>
  Seventeen Log filters: the first asks for another block's hash, the others have no
  constraint. A function for \<open>parallelize\<close> that panics in worker 0 after one effect.
\<close>

definition filters17 :: "Filter list" where
  "filters17 = logFilterOf ''a'' otherHashSpec #
     map (\<lambda>n. logFilterOf (replicate n (CHR ''x'')) anySpec) [1 ..< 17]"

definition panicOnFirst :: "int \<Rightarrow> nat list \<Rightarrow> nat list \<times> unit go" where
  "panicOnFirst worker jobItems =
     (if worker = 0 then (take 1 jobItems, Panic ''boom'') else (jobItems, Return ()))"

section \<open>Properties of the log matcher\<close>

lemma contains_set: "contains items x \<longleftrightarrow> x \<in> set items"
  by (induction items) auto

lemma checkTopics_outside:
  "\<not> (i < maxTopics \<and> i < length (Topics S)) \<Longrightarrow> checkTopics S L i"
  by (subst checkTopics.simps) simp

lemma checkTopics_inside:
  "i < maxTopics \<Longrightarrow> i < length (Topics S) \<Longrightarrow>
   checkTopics S L i \<longleftrightarrow> slotAccepts S L i \<and> checkTopics S L (Suc i)"
  by (subst checkTopics.simps) (auto simp: slotAccepts_def contains_set)

lemma checkTopics_window:
  "checkTopics S L i \<longleftrightarrow> list_all (slotAccepts S L) [i ..< min maxTopics (length (Topics S))]"
proof (induction "min maxTopics (length (Topics S)) - i" arbitrary: i)
  case 0
  then have le: "min maxTopics (length (Topics S)) \<le> i" by linarith
  then have out: "\<not> (i < maxTopics \<and> i < length (Topics S))" by linarith
  have empty: "[i ..< min maxTopics (length (Topics S))] = []" using le by simp
  show ?case unfolding empty using checkTopics_outside [OF out, of L] by simp
next
  case (Suc n)
  then have inside: "i < maxTopics" "i < length (Topics S)" by linarith+
  have "n = min maxTopics (length (Topics S)) - Suc i" using Suc.hyps(2) by linarith
  then have "checkTopics S L (Suc i) \<longleftrightarrow>
      list_all (slotAccepts S L) [Suc i ..< min maxTopics (length (Topics S))]"
    by (rule Suc.hyps(1))
  moreover have "[i ..< min maxTopics (length (Topics S))] =
      i # [Suc i ..< min maxTopics (length (Topics S))]"
    using inside by (simp add: upt_conv_Cons)
  ultimately show ?case
    using checkTopics_inside [OF inside, of L] by (simp only: list.pred_inject)
qed

lemma checkTopics_entry:
  "(if length (Topics S) > 0 then checkTopics S L 0 else True) \<longleftrightarrow>
   list_all (slotAccepts S L) [0 ..< min maxTopics (length (Topics S))]"
  by (simp add: checkTopics_window)

lemma filterLogsLoop_eq:
  "filterLogsLoop NewLog S ls acc = acc @ map NewLog (filter (MatchesWindow S) ls)"
proof (induction ls arbitrary: acc)
  case Nil
  show ?case by simp
next
  case (Cons l ls)
  show ?case
    unfolding filterLogsLoop.simps checkTopics_entry
    by (simp add: Cons.IH MatchesWindow_def addressAccepts_def contains_set)
qed

lemma filterLogs_eq:
  "Parameters f = Some S \<Longrightarrow>
   filterLogs NewLog ls f = Return (map NewLog (filter (MatchesWindow S) ls))"
  by (simp add: filterLogs_def assertLogFilter_def filterLogsLoop_eq)

text \<open>Within \<open>maxTopics\<close> slots the window is the whole filter.\<close>

lemma MatchesWindow_reference:
  "length (Topics S) \<le> maxTopics \<Longrightarrow> MatchesWindow S L = MatchesReference S L"
  by (simp add: MatchesWindow_def MatchesReference_def min_absorb2)

text \<open>The specification's algorithm reads the same slots as the loop of the code.\<close>

lemma specTopicCheck_upt:
  "specTopicCheck S L [i ..< n] \<longleftrightarrow>
   list_all (slotAccepts S L) [i ..< min n (length (Topics S))]"
proof (induction "n - i" arbitrary: i)
  case 0
  then have "[i ..< n] = []" and "[i ..< min n (length (Topics S))] = []" by simp_all
  then show ?case by (simp only: specTopicCheck.simps list.pred_inject)
next
  case (Suc d)
  then have inside: "i < n" and d: "d = n - Suc i" by simp_all
  have range: "[i ..< n] = i # [Suc i ..< n]"
    using inside by (simp add: upt_conv_Cons)
  note ih = Suc.hyps(1) [OF d]
  show ?case
  proof (cases "i < length (Topics S)")
    case False
    then have empty: "[i ..< min n (length (Topics S))] = []" by simp
    show ?thesis
      unfolding range empty using False by simp
  next
    case True
    then have "[i ..< min n (length (Topics S))] = i # [Suc i ..< min n (length (Topics S))]"
      using inside by (simp add: upt_conv_Cons)
    then show ?thesis
      unfolding range using True ih by (auto simp: slotAccepts_def)
  qed
qed

lemma SpecMatches_window: "SpecMatches S L = MatchesWindow S L"
proof -
  have "[0, 1, 2, 3] = [0 ..< maxTopics]"
    by (simp add: maxTopics_def upt_rec)
  then show ?thesis
    unfolding SpecMatches_def MatchesWindow_def addressAccepts_def
    by (simp only: specTopicCheck_upt)
qed


section \<open>C3: the matcher against its reference definition\<close>

text \<open>
  C3. For a filter whose parameters are the spec \<open>S\<close>, \<open>filterLogs\<close> applied to a single
  log \<open>L\<close> keeps it exactly when the specification's matcher accepts it: \<open>S.Addresses\<close>
  is empty or \<open>L.Address\<close> is a member and, going through the slot positions and
  accepting as soon as \<open>S\<close> defines no slot at a position, each slot is empty or \<open>L\<close>
  has a topic at that position that is a member of the slot. For a spec of the data
  model (at most four slots) this is: every slot \<open>S\<close> defines is empty or holds the
  topic of \<open>L\<close> at its position. In particular the log is dropped whenever
  \<open>S.Addresses\<close> is non-empty and \<open>L.Address\<close> is not a member, and kept for every \<open>L\<close>
  when \<open>S.Addresses\<close> and \<open>S.Topics\<close> are both empty.
\<close>

theorem filterLogs_single_log:
  "Parameters f = Some S \<Longrightarrow>
   ((filterLogs NewLog [L] f = Return [NewLog L]) = SpecMatches S L) \<and>
   ((filterLogs NewLog [L] f = Return []) = (\<not> SpecMatches S L)) \<and>
   (length (Topics S) \<le> maxTopics \<longrightarrow> SpecMatches S L = MatchesReference S L) \<and>
   (Addresses S \<noteq> [] \<and> Address L \<notin> set (Addresses S) \<longrightarrow>
      filterLogs NewLog [L] f = Return []) \<and>
   (Addresses S = [] \<and> Topics S = [] \<longrightarrow> filterLogs NewLog [L] f = Return [NewLog L])"
proof -
  assume p: "Parameters f = Some S"
  have kept: "(filterLogs NewLog [L] f = Return [NewLog L]) = SpecMatches S L"
    and dropped: "(filterLogs NewLog [L] f = Return []) = (\<not> SpecMatches S L)"
    by (simp_all add: filterLogs_eq [OF p] SpecMatches_window)
  have "\<not> SpecMatches S L" if "Addresses S \<noteq> [] \<and> Address L \<notin> set (Addresses S)"
    using that by (simp add: SpecMatches_def)
  moreover have "SpecMatches S L" if "Addresses S = [] \<and> Topics S = []"
    using that by (simp add: SpecMatches_def)
  moreover have "SpecMatches S L = MatchesReference S L" if "length (Topics S) \<le> maxTopics"
    using that by (simp add: SpecMatches_window MatchesWindow_reference)
  ultimately show ?thesis
    using kept dropped by blast
qed

theorem filterLogs_single_log_witness:
  "Parameters (logFilterOf ''f'' addrSpec) = Some addrSpec \<and>
   filterLogs id [logAA] (logFilterOf ''f'' addrSpec) = Return [logAA] \<and>
   SpecMatches addrSpec logAA \<and>
   filterLogs id [logBB] (logFilterOf ''f'' addrSpec) = Return [] \<and>
   filterLogs id [logBB] (logFilterOf ''f'' anySpec) = Return [logBB] \<and>
   length (Topics addrSpec) \<le> maxTopics \<and> MatchesReference addrSpec logAA"
proof -
  have p: "Parameters (logFilterOf ''f'' addrSpec) = Some addrSpec"
    and q: "Parameters (logFilterOf ''f'' anySpec) = Some anySpec"
    by (simp_all add: logFilterOf_def)
  have m: "SpecMatches addrSpec logAA"
    by (simp add: SpecMatches_def addrSpec_def anySpec_def logAA_def)
  have a: "Addresses addrSpec \<noteq> [] \<and> Address logBB \<notin> set (Addresses addrSpec)"
    and b: "Addresses anySpec = [] \<and> Topics anySpec = []"
    by (simp_all add: addrSpec_def anySpec_def logBB_def)
  have w: "length (Topics addrSpec) \<le> maxTopics"
    by (simp add: addrSpec_def anySpec_def maxTopics_def)
  show ?thesis
    using filterLogs_single_log [OF p, of id logAA] filterLogs_single_log [OF p, of id logBB]
      filterLogs_single_log [OF q, of id logBB] p m a b w
    by auto
qed

section \<open>The skip test\<close>

lemma shouldSkipLogFilter_hash:
  "Parameters f = Some S \<Longrightarrow> BlockHash S = Some bh \<Longrightarrow>
   shouldSkipLogFilter e event f = Return (bh \<noteq> Hash (Block event))"
  by (simp add: shouldSkipLogFilter_def assertLogFilter_def)

lemma shouldSkipLogFilter_range:
  "Parameters f = Some S \<Longrightarrow> BlockHash S = None \<Longrightarrow>
   shouldSkipLogFilter e event f = Return (fromBlockSkips e event S \<or> toBlockSkips e event S)"
  by (simp add: shouldSkipLogFilter_def assertLogFilter_def)

text \<open>
  C7, as amended. For a Log filter with parameters \<open>S\<close> whose \<open>FromBlock\<close> and \<open>ToBlock\<close>,
  where set, resolve to numbers, the skip test rejects the filter exactly when \<open>S\<close> has a
  \<open>BlockHash\<close> that differs from the event block's hash, or \<open>S\<close> has no \<open>BlockHash\<close> and
  its resolved \<open>FromBlock\<close> is greater than the event block's number, or \<open>S\<close> has no
  \<open>BlockHash\<close> and its resolved \<open>ToBlock\<close> is less than the event block's number.
\<close>

theorem shouldSkipLogFilter_iff:
  assumes "Parameters f = Some S"
    and "\<And>fb. FromBlock S = Some fb \<Longrightarrow> \<exists>n. GetNumericBlockNumber e (Some fb) = Inr n"
    and "\<And>tb. ToBlock S = Some tb \<Longrightarrow> \<exists>n. GetNumericBlockNumber e (Some tb) = Inr n"
  shows "shouldSkipLogFilter e event f = Return
      ((\<exists>bh. BlockHash S = Some bh \<and> bh \<noteq> Hash (Block event)) \<or>
       (BlockHash S = None \<and>
          (\<exists>fb n. FromBlock S = Some fb \<and> GetNumericBlockNumber e (Some fb) = Inr n \<and>
             NumberU64 (Block event) < n)) \<or>
       (BlockHash S = None \<and>
          (\<exists>tb n. ToBlock S = Some tb \<and> GetNumericBlockNumber e (Some tb) = Inr n \<and>
             n < NumberU64 (Block event))))"
proof (cases "BlockHash S")
  case (Some bh)
  then show ?thesis
    using shouldSkipLogFilter_hash [OF assms(1) Some, of e event] by simp
next
  case None
  have "fromBlockSkips e event S \<longleftrightarrow>
      (\<exists>fb n. FromBlock S = Some fb \<and> GetNumericBlockNumber e (Some fb) = Inr n \<and>
             NumberU64 (Block event) < n)"
    using assms(2) by (cases "FromBlock S") (auto simp: fromBlockSkips_def)
  moreover have "toBlockSkips e event S \<longleftrightarrow>
      (\<exists>tb n. ToBlock S = Some tb \<and> GetNumericBlockNumber e (Some tb) = Inr n \<and>
             n < NumberU64 (Block event))"
    using assms(3) by (cases "ToBlock S") (auto simp: toBlockSkips_def)
  ultimately show ?thesis
    using shouldSkipLogFilter_range [OF assms(1) None, of e event] None by simp
qed

theorem shouldSkipLogFilter_iff_witness:
  "Parameters (logFilterOf ''f'' fromSevenSpec) = Some fromSevenSpec \<and>
   shouldSkipLogFilter exampleEndpoints event6 (logFilterOf ''f'' fromSevenSpec) = Return True \<and>
   BlockHash fromSevenSpec = None \<and> FromBlock fromSevenSpec = Some (ExplicitNumber 7) \<and>
   GetNumericBlockNumber exampleEndpoints (Some (ExplicitNumber 7)) = Inr 7 \<and>
   NumberU64 (Block event6) < 7"
proof -
  have p: "Parameters (logFilterOf ''f'' fromSevenSpec) = Some fromSevenSpec"
    by (simp add: logFilterOf_def)
  have r: "GetNumericBlockNumber exampleEndpoints (Some (ExplicitNumber 7)) = Inr 7"
    by (simp add: exampleEndpoints_def resolveExample_def)
  have rf: "\<exists>n. GetNumericBlockNumber exampleEndpoints (Some fb) = Inr n"
    if "FromBlock fromSevenSpec = Some fb" for fb
    using that by (auto simp: fromSevenSpec_def anySpec_def exampleEndpoints_def resolveExample_def)
  have rt: "\<exists>n. GetNumericBlockNumber exampleEndpoints (Some tb) = Inr n"
    if "ToBlock fromSevenSpec = Some tb" for tb
    using that by (auto simp: fromSevenSpec_def anySpec_def exampleEndpoints_def resolveExample_def)
  have s: "BlockHash fromSevenSpec = None" "FromBlock fromSevenSpec = Some (ExplicitNumber 7)"
    by (simp_all add: fromSevenSpec_def anySpec_def)
  have n: "NumberU64 (Block event6) < 7"
    by (simp add: event6_def block6_def)
  have "shouldSkipLogFilter exampleEndpoints event6 (logFilterOf ''f'' fromSevenSpec) = Return True"
    using shouldSkipLogFilter_iff [OF p rf rt, of event6] s r n by auto
  then show ?thesis using p r s n by simp
qed

text \<open>
  C7 as stated lets a \<open>ToBlock\<close> below the block's number reject the filter whether or
  not a \<open>BlockHash\<close> is set. A filter with the hash of block 6 and \<open>ToBlock = 5\<close> is not
  rejected for block 6: with a \<open>BlockHash\<close> the range is not read.
\<close>

theorem shouldSkipLogFilter_toBlock_counterexample:
  "shouldSkipLogFilter exampleEndpoints event6 (logFilterOf ''f'' hashAndRangeSpec) = Return False \<and>
   ToBlock hashAndRangeSpec = Some (ExplicitNumber 5) \<and>
   GetNumericBlockNumber exampleEndpoints (Some (ExplicitNumber 5)) = Inr 5 \<and>
   5 < NumberU64 (Block event6)"
  by (simp add: shouldSkipLogFilter_def assertLogFilter_def logFilterOf_def hashAndRangeSpec_def
      anySpec_def event6_def block6_def exampleEndpoints_def resolveExample_def)

text \<open>
  C10. For a Log filter without \<open>BlockHash\<close> (the case in which the skip test resolves
  block references at all): if its \<open>FromBlock\<close> or its \<open>ToBlock\<close> is set and fails to
  resolve, \<open>shouldSkipLogFilter\<close> returns \<open>true\<close>, a plain boolean with no error in it,
  and the worker that meets this filter returns at once, having enqueued nothing for it.
\<close>

theorem shouldSkipLogFilter_resolution_failure:
  assumes "Parameters f = Some S" and "BlockHash S = None"
    and "(\<exists>fb err. FromBlock S = Some fb \<and> GetNumericBlockNumber e (Some fb) = Inl err) \<or>
         (\<exists>tb err. ToBlock S = Some tb \<and> GetNumericBlockNumber e (Some tb) = Inl err)"
  shows "shouldSkipLogFilter e event f = Return True \<and>
         notifyNewLogsWorker e NewLog Marshal event (f # fs) = ([], Return ())"
proof -
  have "fromBlockSkips e event S \<or> toBlockSkips e event S"
    using assms(3) by (auto simp: fromBlockSkips_def toBlockSkips_def)
  then have "shouldSkipLogFilter e event f = Return True"
    using shouldSkipLogFilter_range [OF assms(1,2), of e event] by simp
  then show ?thesis by simp
qed

theorem shouldSkipLogFilter_resolution_failure_witness:
  "Parameters (logFilterOf ''f'' pendingSpec) = Some pendingSpec \<and>
   BlockHash pendingSpec = None \<and> ToBlock pendingSpec = Some Pending \<and>
   GetNumericBlockNumber exampleEndpoints (Some Pending) =
     Inl (RPCError DefaultErrorCode ''not synchronized'') \<and>
   shouldSkipLogFilter exampleEndpoints event6 (logFilterOf ''f'' pendingSpec) = Return True \<and>
   notifyNewLogsWorker exampleEndpoints id marshalExample event6
     [logFilterOf ''f'' pendingSpec, logFilterOf ''g'' anySpec] = ([], Return ())"
proof -
  have p: "Parameters (logFilterOf ''f'' pendingSpec) = Some pendingSpec"
    by (simp add: logFilterOf_def)
  have s: "BlockHash pendingSpec = None" "ToBlock pendingSpec = Some Pending"
    by (simp_all add: pendingSpec_def anySpec_def)
  have r: "GetNumericBlockNumber exampleEndpoints (Some Pending) =
     Inl (RPCError DefaultErrorCode ''not synchronized'')"
    by (simp add: exampleEndpoints_def resolveExample_def)
  have "(\<exists>fb err. FromBlock pendingSpec = Some fb \<and>
           GetNumericBlockNumber exampleEndpoints (Some fb) = Inl err) \<or>
        (\<exists>tb err. ToBlock pendingSpec = Some tb \<and>
           GetNumericBlockNumber exampleEndpoints (Some tb) = Inl err)"
    using s r by simp
  then show ?thesis
    using shouldSkipLogFilter_resolution_failure [OF p s(1), of exampleEndpoints event6 id
        marshalExample "[logFilterOf ''g'' anySpec]"] p s r
    by simp
qed

section \<open>The worker of \<open>notifyNewLogs\<close>\<close>

text \<open>
  A chunk in which no filter is skipped: every filter gets every matching log of the
  event, serialized, in the order of the logs.
\<close>

lemma notifyNewLogsWorker_none_skipped:
  assumes "\<And>f. f \<in> set filters \<Longrightarrow>
             Parameters f \<noteq> None \<and> shouldSkipLogFilter e event f = Return False"
  shows "notifyNewLogsWorker e NewLog Marshal event filters =
           (concat (map (\<lambda>f. map (\<lambda>l. (ID f, marshalled Marshal (NewLog l)))
                                (filter (MatchesWindow (the (Parameters f))) (Logs event)))
                     filters),
            Return ())"
  using assms
proof (induction filters)
  case Nil
  show ?case by simp
next
  case (Cons f filters)
  from Cons.prems [of f] obtain S where S: "Parameters f = Some S"
    and keep: "shouldSkipLogFilter e event f = Return False"
    by auto
  have rest: "notifyNewLogsWorker e NewLog Marshal event filters =
           (concat (map (\<lambda>f. map (\<lambda>l. (ID f, marshalled Marshal (NewLog l)))
                                (filter (MatchesWindow (the (Parameters f))) (Logs event)))
                     filters),
            Return ())"
    using Cons.prems by (intro Cons.IH) simp
  show ?case
    by (simp add: keep rest S filterLogs_eq [OF S] comp_def)
qed

text \<open>
  In one chunk, filter \<open>a\<close> asks for another block's hash and is skipped; filter \<open>b\<close>
  has no constraint, is not skipped by the test and alone would get both logs of the
  event. After \<open>a\<close> it gets nothing: the worker returns instead of going on to the
  next filter.
\<close>

lemma notifyNewLogsWorker_skip_drops_chunk:
  "notifyNewLogsWorker exampleEndpoints id marshalExample event6
     [logFilterOf ''a'' otherHashSpec, logFilterOf ''b'' anySpec] = ([], Return ()) \<and>
   shouldSkipLogFilter exampleEndpoints event6 (logFilterOf ''b'' anySpec) = Return False \<and>
   notifyNewLogsWorker exampleEndpoints id marshalExample event6 [logFilterOf ''b'' anySpec] =
     ([(''b'', [0xA]), (''b'', [0xB])], Return ())"
  by (simp add: shouldSkipLogFilter_def assertLogFilter_def logFilterOf_def otherHashSpec_def
      anySpec_def event6_def block6_def fromBlockSkips_def toBlockSkips_def filterLogs_def
      marshalled_def marshalExample_def logAA_def logBB_def)

text \<open>
  C1 fails on the code. With seventeen Log filters \<open>parallelize\<close> forms chunks of two.
  Filter \<open>a\<close>, the first, is rejected by the skip test; filter \<open>x\<close>, the second of the
  same chunk, passes the test and matches both logs of the event, as the fifteen other
  filters do. Every filter but \<open>x\<close> is enqueued the two logs in order; the chunk of \<open>a\<close>
  and \<open>x\<close> enqueues nothing.
\<close>

theorem notifyNewLogs_skip_drops_neighbour:
  "notifyNewLogs exampleEndpoints id marshalExample event6 filters17 =
     Return [([], []),
       ([(''xx'', [0xA]), (''xx'', [0xB]), (''xxx'', [0xA]), (''xxx'', [0xB])], []),
       ([(''xxxx'', [0xA]), (''xxxx'', [0xB]), (''xxxxx'', [0xA]), (''xxxxx'', [0xB])], []),
       ([(''xxxxxx'', [0xA]), (''xxxxxx'', [0xB]), (''xxxxxxx'', [0xA]), (''xxxxxxx'', [0xB])], []),
       ([(''xxxxxxxx'', [0xA]), (''xxxxxxxx'', [0xB]),
         (''xxxxxxxxx'', [0xA]), (''xxxxxxxxx'', [0xB])], []),
       ([(''xxxxxxxxxx'', [0xA]), (''xxxxxxxxxx'', [0xB]),
         (''xxxxxxxxxxx'', [0xA]), (''xxxxxxxxxxx'', [0xB])], []),
       ([(''xxxxxxxxxxxx'', [0xA]), (''xxxxxxxxxxxx'', [0xB]),
         (''xxxxxxxxxxxxx'', [0xA]), (''xxxxxxxxxxxxx'', [0xB])], []),
       ([(''xxxxxxxxxxxxxx'', [0xA]), (''xxxxxxxxxxxxxx'', [0xB]),
         (''xxxxxxxxxxxxxxx'', [0xA]), (''xxxxxxxxxxxxxxx'', [0xB])], []),
       ([(''xxxxxxxxxxxxxxxx'', [0xA]), (''xxxxxxxxxxxxxxxx'', [0xB])], [])]"
  by (simp add: notifyNewLogs_def parallelize_def goroutine_def filters17_def
      parallelizeJobs_def parallelizeLoop.simps slice_def signed_divide_int_def
      signed_modulo_int_def upt_rec
      shouldSkipLogFilter_def assertLogFilter_def logFilterOf_def otherHashSpec_def
      anySpec_def event6_def block6_def fromBlockSkips_def toBlockSkips_def filterLogs_def
      marshalled_def marshalExample_def logAA_def logBB_def)

section \<open>Polling\<close>

lemma GetFilterChanges_not_found:
  "storage_GetFilter e st filterID = Inl ErrNotFound \<Longrightarrow>
   GetFilterChanges e NewLog st filterID =
     (Return (Inl (RPCError DefaultErrorCode ''filter not found'')), st)"
  by (simp add: GetFilterChanges_def RPCErrorResponse_def)

lemma GetFilterLogs_not_found:
  "storage_GetFilter e st filterID = Inl ErrNotFound \<Longrightarrow>
   GetFilterLogs e NewLog NewDbTxScope st filterID = (Return (Inr Nil), st)"
  by (simp add: GetFilterLogs_def)

text \<open>
  C8, as amended. When the storage has no filter with the given ID, \<open>GetFilterChanges\<close>
  fails with the RPC error "filter not found", and \<open>GetFilterLogs\<close> returns a null
  result with no error; neither touches the store.
\<close>

theorem poll_not_found:
  "storage_GetFilter e st filterID = Inl ErrNotFound \<Longrightarrow>
   GetFilterChanges e NewLog st filterID =
     (Return (Inl (RPCError DefaultErrorCode ''filter not found'')), st) \<and>
   GetFilterLogs e NewLog NewDbTxScope st filterID = (Return (Inr Nil), st)"
  by (simp add: GetFilterChanges_not_found GetFilterLogs_not_found)

theorem poll_not_found_witness:
  "storage_GetFilter exampleEndpoints pollStore ''none'' = Inl ErrNotFound \<and>
   GetFilterChanges exampleEndpoints id pollStore ''none'' =
     (Return (Inl (RPCError DefaultErrorCode ''filter not found'')), pollStore) \<and>
   GetFilterLogs exampleEndpoints id id pollStore ''none'' = (Return (Inr Nil), pollStore)"
proof -
  have g: "storage_GetFilter exampleEndpoints pollStore ''none'' = Inl ErrNotFound"
    by (simp add: exampleEndpoints_def pollStore_def logFilterOf_def)
  show ?thesis
    using poll_not_found [OF g, of id id] g by simp
qed

text \<open>
  C8 as stated fails for \<open>GetFilterLogs\<close>: for an unknown ID it returns \<open>nil, nil\<close>.
\<close>

theorem GetFilterLogs_not_found_counterexample:
  "storage_GetFilter exampleEndpoints pollStore ''none'' = Inl ErrNotFound \<and>
   fst (GetFilterLogs exampleEndpoints id id pollStore ''none'') = Return (Inr Nil)"
  by (simp add: GetFilterLogs_def exampleEndpoints_def pollStore_def logFilterOf_def)

text \<open>
  C9. \<open>GetFilterLogs\<close> on an existing filter whose type is not \<open>Log\<close> returns a null
  result with no error and leaves the store as it was; it reports no type mismatch and
  returns none of the changes \<open>GetFilterChanges\<close> would.
\<close>

theorem GetFilterLogs_other_type:
  "storage_GetFilter e st filterID = Inr f \<Longrightarrow> Type f \<noteq> FilterTypeLog \<Longrightarrow>
   GetFilterLogs e NewLog NewDbTxScope st filterID = (Return (Inr Nil), st)"
  by (simp add: GetFilterLogs_def)

theorem GetFilterLogs_other_type_witness:
  "(\<exists>f. storage_GetFilter exampleEndpoints pollStore ''blk3'' = Inr f \<and> Type f = FilterTypeBlock) \<and>
   GetFilterLogs exampleEndpoints id id pollStore ''blk3'' = (Return (Inr Nil), pollStore) \<and>
   fst (GetFilterChanges exampleEndpoints id pollStore ''blk3'') = Return (Inr (Hashes [5, 6]))"
proof -
  let ?f = "\<lparr>ID = ''blk3'', Type = FilterTypeBlock, Parameters = None, LastPoll = 3, WsConn = None\<rparr>"
  have g: "storage_GetFilter exampleEndpoints pollStore ''blk3'' = Inr ?f"
    by (simp add: exampleEndpoints_def pollStore_def logFilterOf_def)
  have t: "Type ?f \<noteq> FilterTypeLog" by simp
  have c: "fst (GetFilterChanges exampleEndpoints id pollStore ''blk3'') = Return (Inr (Hashes [5, 6]))"
    by (simp add: GetFilterChanges_def updateFilterLastPoll_def exampleEndpoints_def pollStore_def
        logFilterOf_def)
  show ?thesis
    using GetFilterLogs_other_type [OF g t, of id id] g c by simp
qed

lemma GetFilterChanges_block_error:
  "storage_GetFilter e st filterID = Inr f \<Longrightarrow> Type f = FilterTypeBlock \<Longrightarrow>
   state_GetL2BlockHashesSince e (LastPoll f) = Inl err \<Longrightarrow>
   GetFilterChanges e NewLog st filterID =
     (Return (Inl (RPCError DefaultErrorCode ''failed to get block hashes'')), st)"
  by (simp add: GetFilterChanges_def RPCErrorResponse_def)

lemma GetFilterChanges_pending_error:
  "storage_GetFilter e st filterID = Inr f \<Longrightarrow> Type f = FilterTypePendingTx \<Longrightarrow>
   pool_GetPendingTxHashesSince e (LastPoll f) = Inl err \<Longrightarrow>
   GetFilterChanges e NewLog st filterID =
     (Return (Inl (RPCError DefaultErrorCode ''failed to get pending transaction hashes'')), st)"
  by (simp add: GetFilterChanges_def RPCErrorResponse_def)

lemma GetFilterChanges_log_error:
  "storage_GetFilter e st filterID = Inr f \<Longrightarrow> Type f = FilterTypeLog \<Longrightarrow>
   Parameters f = Some S \<Longrightarrow>
   internalGetLogs e NewLog (S\<lparr>Since := Some (LastPoll f)\<rparr>) = Inl rpcErr \<Longrightarrow>
   GetFilterChanges e NewLog st filterID = (Return (Inl rpcErr), st)"
  by (simp add: GetFilterChanges_def assertLogFilter_def)

text \<open>
  The Log branch at the level of the collaborators: a block reference that does not
  resolve, or a failing log query, is returned as an error with the store as it was.
\<close>

lemma GetFilterChanges_log_resolution_error:
  "storage_GetFilter e st filterID = Inr f \<Longrightarrow> Type f = FilterTypeLog \<Longrightarrow>
   Parameters f = Some S \<Longrightarrow>
   (\<exists>fb. FromBlock S = Some fb \<and> GetNumericBlockNumber e (Some fb) = Inl rpcErr) \<or>
   ((case FromBlock S of None \<Rightarrow> Inr 0 | Some fb \<Rightarrow> GetNumericBlockNumber e (Some fb)) =
      Inr fromBlock \<and> GetNumericBlockNumber e (ToBlock S) = Inl rpcErr) \<Longrightarrow>
   GetFilterChanges e NewLog st filterID = (Return (Inl rpcErr), st)"
  by (rule GetFilterChanges_log_error) (auto simp: internalGetLogs_def)

lemma GetFilterChanges_log_query_error:
  "storage_GetFilter e st filterID = Inr f \<Longrightarrow> Type f = FilterTypeLog \<Longrightarrow>
   Parameters f = Some S \<Longrightarrow>
   (case FromBlock S of None \<Rightarrow> Inr 0 | Some fb \<Rightarrow> GetNumericBlockNumber e (Some fb)) =
     Inr fromBlock \<Longrightarrow>
   GetNumericBlockNumber e (ToBlock S) = Inr toBlock \<Longrightarrow>
   state_GetLogs e fromBlock toBlock (Addresses S) (Topics S) (BlockHash S)
     (Some (LastPoll f)) = Inl err \<Longrightarrow>
   GetFilterChanges e NewLog st filterID =
     (Return (Inl (RPCError DefaultErrorCode ''failed to get logs from state'')), st)"
  by (rule GetFilterChanges_log_error) (auto simp: internalGetLogs_def)

lemma updateFilterLastPoll_store:
  "snd (updateFilterLastPoll e st filterID) = snd (storage_UpdateFilterLastPoll e st filterID)"
  by (simp add: updateFilterLastPoll_def split: prod.splits)

lemma GetFilterChanges_block_success:
  "storage_GetFilter e st filterID = Inr f \<Longrightarrow> Type f = FilterTypeBlock \<Longrightarrow>
   state_GetL2BlockHashesSince e (LastPoll f) = Inr res \<Longrightarrow>
   snd (GetFilterChanges e NewLog st filterID) = snd (storage_UpdateFilterLastPoll e st (ID f))"
  using updateFilterLastPoll_store [of e st "ID f"]
  by (auto simp: GetFilterChanges_def split: prod.splits option.splits)

lemma GetFilterChanges_pending_success:
  "storage_GetFilter e st filterID = Inr f \<Longrightarrow> Type f = FilterTypePendingTx \<Longrightarrow>
   pool_GetPendingTxHashesSince e (LastPoll f) = Inr res \<Longrightarrow>
   snd (GetFilterChanges e NewLog st filterID) = snd (storage_UpdateFilterLastPoll e st (ID f))"
  using updateFilterLastPoll_store [of e st "ID f"]
  by (auto simp: GetFilterChanges_def split: prod.splits option.splits)

lemma GetFilterChanges_log_success:
  "storage_GetFilter e st filterID = Inr f \<Longrightarrow> Type f = FilterTypeLog \<Longrightarrow>
   Parameters f = Some S \<Longrightarrow>
   internalGetLogs e NewLog (S\<lparr>Since := Some (LastPoll f)\<rparr>) = Inr res \<Longrightarrow>
   snd (GetFilterChanges e NewLog st filterID) = snd (storage_UpdateFilterLastPoll e st (ID f))"
  using updateFilterLastPoll_store [of e st "ID f"]
  by (auto simp: GetFilterChanges_def assertLogFilter_def split: prod.splits option.splits)

text \<open>
  C6. In each branch of \<open>GetFilterChanges\<close> (Block, PendingTx, Log), when the retrieval
  from the collaborator fails the call returns an error and the store is the one it was
  given: \<open>UpdateFilterLastPoll\<close> has not run. When the retrieval succeeds the store is
  the one \<open>UpdateFilterLastPoll\<close> leaves. The Log branch returns the error of
  \<open>internalGetLogs\<close> itself; the other two return an RPC error naming the failed
  retrieval.
\<close>

theorem GetFilterChanges_cursor_after_retrieval:
  assumes "storage_GetFilter e st filterID = Inr f"
  shows "(Type f = FilterTypeBlock \<longrightarrow>
            (\<forall>err. state_GetL2BlockHashesSince e (LastPoll f) = Inl err \<longrightarrow>
               GetFilterChanges e NewLog st filterID =
                 (Return (Inl (RPCError DefaultErrorCode ''failed to get block hashes'')), st)) \<and>
            (\<forall>res. state_GetL2BlockHashesSince e (LastPoll f) = Inr res \<longrightarrow>
               snd (GetFilterChanges e NewLog st filterID) =
                 snd (storage_UpdateFilterLastPoll e st (ID f)))) \<and>
         (Type f = FilterTypePendingTx \<longrightarrow>
            (\<forall>err. pool_GetPendingTxHashesSince e (LastPoll f) = Inl err \<longrightarrow>
               GetFilterChanges e NewLog st filterID =
                 (Return (Inl (RPCError DefaultErrorCode
                    ''failed to get pending transaction hashes'')), st)) \<and>
            (\<forall>res. pool_GetPendingTxHashesSince e (LastPoll f) = Inr res \<longrightarrow>
               snd (GetFilterChanges e NewLog st filterID) =
                 snd (storage_UpdateFilterLastPoll e st (ID f)))) \<and>
         (Type f = FilterTypeLog \<longrightarrow>
            (\<forall>S rpcErr. Parameters f = Some S \<and>
               internalGetLogs e NewLog (S\<lparr>Since := Some (LastPoll f)\<rparr>) = Inl rpcErr \<longrightarrow>
               GetFilterChanges e NewLog st filterID = (Return (Inl rpcErr), st)) \<and>
            (\<forall>S res. Parameters f = Some S \<and>
               internalGetLogs e NewLog (S\<lparr>Since := Some (LastPoll f)\<rparr>) = Inr res \<longrightarrow>
               snd (GetFilterChanges e NewLog st filterID) =
                 snd (storage_UpdateFilterLastPoll e st (ID f))))"
  using GetFilterChanges_block_error [OF assms] GetFilterChanges_pending_error [OF assms]
    GetFilterChanges_log_error [OF assms] GetFilterChanges_block_success [OF assms]
    GetFilterChanges_pending_success [OF assms] GetFilterChanges_log_success [OF assms]
  by blast

theorem GetFilterChanges_cursor_after_retrieval_witness:
  "GetFilterChanges exampleEndpoints id pollStore ''blk'' =
     (Return (Inl (RPCError DefaultErrorCode ''failed to get block hashes'')), pollStore) \<and>
   GetFilterChanges exampleEndpoints id pollStore ''ptx'' =
     (Return (Inl (RPCError DefaultErrorCode ''failed to get pending transaction hashes'')), pollStore) \<and>
   GetFilterChanges exampleEndpoints id pollStore ''pend'' =
     (Return (Inl (RPCError DefaultErrorCode ''not synchronized'')), pollStore) \<and>
   snd (GetFilterChanges exampleEndpoints id pollStore ''blk3'') =
     snd (storage_UpdateFilterLastPoll exampleEndpoints pollStore ''blk3'') \<and>
   snd (storage_UpdateFilterLastPoll exampleEndpoints pollStore ''blk3'') \<noteq> pollStore"
proof -
  let ?blk = "\<lparr>ID = ''blk'', Type = FilterTypeBlock, Parameters = None, LastPoll = 0, WsConn = None\<rparr>"
  let ?blk3 = "\<lparr>ID = ''blk3'', Type = FilterTypeBlock, Parameters = None, LastPoll = 3, WsConn = None\<rparr>"
  let ?ptx = "\<lparr>ID = ''ptx'', Type = FilterTypePendingTx, Parameters = None, LastPoll = 0, WsConn = None\<rparr>"
  let ?pend = "(logFilterOf ''pend'' pendingSpec)\<lparr>LastPoll := 3\<rparr>"
  have g1: "storage_GetFilter exampleEndpoints pollStore ''blk'' = Inr ?blk"
    and g2: "storage_GetFilter exampleEndpoints pollStore ''ptx'' = Inr ?ptx"
    and g3: "storage_GetFilter exampleEndpoints pollStore ''pend'' = Inr ?pend"
    and g4: "storage_GetFilter exampleEndpoints pollStore ''blk3'' = Inr ?blk3"
    by (simp_all add: exampleEndpoints_def pollStore_def logFilterOf_def)
  have r1: "state_GetL2BlockHashesSince exampleEndpoints (LastPoll ?blk) = Inl ''no connection''"
    and r2: "pool_GetPendingTxHashesSince exampleEndpoints (LastPoll ?ptx) = Inl ''no connection''"
    and r4: "state_GetL2BlockHashesSince exampleEndpoints (LastPoll ?blk3) = Inr [5, 6]"
    by (simp_all add: exampleEndpoints_def)
  have r3: "Parameters ?pend = Some pendingSpec \<and>
      internalGetLogs exampleEndpoints id (pendingSpec\<lparr>Since := Some (LastPoll ?pend)\<rparr>) =
        Inl (RPCError DefaultErrorCode ''not synchronized'')"
    by (simp add: internalGetLogs_def exampleEndpoints_def resolveExample_def logFilterOf_def
        pendingSpec_def anySpec_def)
  have t: "Type ?blk = FilterTypeBlock" "Type ?ptx = FilterTypePendingTx"
    "Type ?pend = FilterTypeLog" "Type ?blk3 = FilterTypeBlock" "ID ?blk3 = ''blk3''"
    by (simp_all add: logFilterOf_def)
  have moved: "snd (storage_UpdateFilterLastPoll exampleEndpoints pollStore ''blk3'') \<noteq> pollStore"
    by (simp add: exampleEndpoints_def pollStore_def logFilterOf_def)
  show ?thesis
    using GetFilterChanges_cursor_after_retrieval [OF g1, of id]
      GetFilterChanges_cursor_after_retrieval [OF g2, of id]
      GetFilterChanges_cursor_after_retrieval [OF g3, of id]
      GetFilterChanges_cursor_after_retrieval [OF g4, of id]
      r1 r2 r3 r4 t moved
    by metis
qed




section \<open>The worker pool\<close>

lemma slice_nat:
  "lo \<le> hi \<Longrightarrow> slice items (int lo) (int hi) = Return (take (hi - lo) (drop lo items))"
  by (simp add: slice_def nat_diff_distrib')

lemma slice_chunk:
  assumes "w * js \<le> length items"
  shows "slice items (int w * int js)
           (if int (length items) < int (Suc w) * int js then int (length items)
            else int (Suc w) * int js) =
         Return (take js (drop (w * js) items))"
proof (cases "length items < Suc w * js")
  case True
  then have "length (drop (w * js) items) \<le> js"
    by simp
  then have "take (length items - w * js) (drop (w * js) items) = take js (drop (w * js) items)"
    by simp
  then show ?thesis
    unfolding of_nat_mult [symmetric] of_nat_less_iff
    using True slice_nat [OF assms, of items] by simp
next
  case False
  have "w * js \<le> Suc w * js" by simp
  from slice_nat [OF this, of items] False show ?thesis
    unfolding of_nat_mult [symmetric] of_nat_less_iff by simp
qed

lemma parallelizeLoop_step:
  "parallelizeLoop (int wc) (int js) (int w) items =
     (if w < wc then
        (if w * js > length items then parallelizeLoop (int wc) (int js) (int (Suc w)) items
         else (case parallelizeLoop (int wc) (int js) (int (Suc w)) items of
                 Panic v \<Rightarrow> Panic v
               | Return jobs \<Rightarrow> Return ((int w, take js (drop (w * js) items)) # jobs)))
      else Return [])"
proof -
  have gt: "int w * int js > int (length items) \<longleftrightarrow> w * js > length items"
    unfolding of_nat_mult [symmetric] of_nat_less_iff ..
  have suc: "int w + 1 = int (Suc w)" by simp
  have unfolded: "parallelizeLoop (int wc) (int js) (int w) items =
     (if w < wc then
        (if w * js > length items then parallelizeLoop (int wc) (int js) (int (Suc w)) items
         else (case slice items (int w * int js)
                      (if int (length items) < int (Suc w) * int js then int (length items)
                       else int (Suc w) * int js) of
                 Panic v \<Rightarrow> Panic v
               | Return jobItems \<Rightarrow>
                   (case parallelizeLoop (int wc) (int js) (int (Suc w)) items of
                      Panic v \<Rightarrow> Panic v
                    | Return jobs \<Rightarrow> Return ((int w, jobItems) # jobs))))
      else Return [])"
    by (subst parallelizeLoop.simps) (simp only: gt suc of_nat_less_iff)
  show ?thesis
  proof (cases "w < wc")
    case False
    then show ?thesis unfolding unfolded by simp
  next
    case inside: True
    show ?thesis
    proof (cases "w * js > length items")
      case True
      then show ?thesis unfolding unfolded using inside by simp
    next
      case False
      then have "w * js \<le> length items" by simp
      from slice_chunk [OF this] show ?thesis
        unfolding unfolded using inside False by simp
    qed
  qed
qed

lemma parallelizeLoop_closed:
  "parallelizeLoop (int wc) (int js) (int w) items =
     Return (map (\<lambda>i. (int i, take js (drop (i * js) items)))
               (filter (\<lambda>i. i * js \<le> length items) [w ..< wc]))"
proof (induction "wc - w" arbitrary: w)
  case 0
  then have "\<not> w < wc" by simp
  then show ?case
    by (subst parallelizeLoop_step) simp
next
  case (Suc n)
  then have inside: "w < wc" and n: "n = wc - Suc w" by simp_all
  have range: "[w ..< wc] = w # [Suc w ..< wc]"
    using inside by (simp add: upt_conv_Cons)
  note ih = Suc.hyps(1) [OF n]
  show ?case
    unfolding range
    by (subst parallelizeLoop_step) (simp add: inside ih not_less del: of_nat_Suc)
qed

lemma filter_less_upt: "filter (\<lambda>i. i < c) [0 ..< n] = [0 ..< min n c]"
proof (induction n)
  case 0
  show ?case by simp
next
  case (Suc n)
  show ?case
  proof (cases "n < c")
    case True
    then have "min n c = n" "min (Suc n) c = Suc n" by simp_all
    then show ?thesis using Suc True by simp
  next
    case False
    then have "min n c = c" "min (Suc n) c = c" by simp_all
    then show ?thesis using Suc False by simp
  qed
qed

lemma started_workers:
  assumes "0 < js"
  shows "filter (\<lambda>i. i * js \<le> N) [0 ..< wc] = [0 ..< min wc (Suc (N div js))]"
proof -
  have "i * js \<le> N \<longleftrightarrow> i < Suc (N div js)" for i
    using assms by (simp add: less_eq_div_iff_mult_less_eq less_Suc_eq_le)
  then show ?thesis
    by (simp add: filter_less_upt)
qed

lemma concat_chunks:
  "concat (map (\<lambda>i. take js (drop (i * js) items)) [0 ..< k]) = take (k * js) items"
proof (induction k)
  case 0
  show ?case by simp
next
  case (Suc k)
  have "take (k * js) items @ take js (drop (k * js) items) = take (k * js + js) items"
    by (simp add: take_add)
  then show ?case
    using Suc by (simp add: add.commute)
qed

lemma ceilDiv_code:
  assumes "0 < wc"
  shows "ceilDiv N wc = (if N mod wc > 0 then N div wc + 1 else N div wc)"
proof -
  define q r where "q = N div wc" and "r = N mod wc"
  have N: "N = r + q * wc" by (simp add: q_def r_def)
  have r: "r < wc" using assms by (simp add: r_def)
  show ?thesis
  proof (cases "r > 0")
    case True
    have "N + wc - 1 = (r - 1) + (q + 1) * wc"
      unfolding N using True by (simp add: algebra_simps)
    then have "(N + wc - 1) div wc = (q + 1) + (r - 1) div wc"
      using assms by (simp only: div_mult_self1)
    moreover have "(r - 1) div wc = 0" using r by simp
    ultimately show ?thesis using True by (simp add: ceilDiv_def q_def r_def)
  next
    case False
    then have "N + wc - 1 = (wc - 1) + (q + 1 - 1) * wc + 0"
      unfolding N using assms by (simp add: algebra_simps)
    then have "N + wc - 1 = (wc - 1) + q * wc" by simp
    then have "(N + wc - 1) div wc = q + (wc - 1) div wc"
      using assms by (simp only: div_mult_self1)
    moreover have "(wc - 1) div wc = 0" using assms by simp
    ultimately show ?thesis using False by (simp add: ceilDiv_def q_def r_def)
  qed
qed

lemma jobSize_int:
  assumes "0 < wc"
  shows "(if int N smod int wc > 0 then int N sdiv int wc + 1 else int N sdiv int wc) =
         int (ceilDiv N wc)"
proof -
  have d: "int N sdiv int wc = int (N div wc)"
    using assms by (cases "N = 0") (simp_all add: signed_divide_int_def zdiv_int)
  have m: "int N smod int wc = int (N mod wc)"
    using assms by (cases "N = 0") (simp_all add: signed_modulo_int_def zmod_int)
  show ?thesis
    unfolding d m ceilDiv_code [OF assms] by simp
qed

lemma ceilDiv_covers:
  assumes "0 < wc"
  shows "N \<le> wc * ceilDiv N wc"
proof (cases "N mod wc > 0")
  case True
  have "N = wc * (N div wc) + N mod wc" by simp
  moreover have "N mod wc \<le> wc" using assms by (simp add: less_imp_le)
  ultimately have "N \<le> wc * (N div wc) + wc" by linarith
  then show ?thesis using True by (simp add: ceilDiv_code [OF assms])
next
  case False
  then have "N mod wc = 0" by simp
  then have "N = wc * (N div wc)" using mult_div_mod_eq [of wc N] by simp
  then have "N \<le> wc * (N div wc)" by simp
  then show ?thesis using False by (simp only: ceilDiv_code [OF assms] if_False)
qed

lemma ceilDiv_pos:
  assumes "0 < wc" and "0 < N"
  shows "0 < ceilDiv N wc"
proof (rule ccontr)
  assume "\<not> 0 < ceilDiv N wc"
  then have "ceilDiv N wc = 0" by simp
  then have "N \<le> 0" using ceilDiv_covers [OF assms(1), of N] by simp
  then show False using assms(2) by simp
qed

lemma parallelizeJobs_closed:
  assumes "items \<noteq> []" and "0 < maxWorkers"
  defines "wc \<equiv> min (nat maxWorkers) (length items)"
  defines "js \<equiv> ceilDiv (length items) wc"
  shows "parallelizeJobs maxWorkers items =
           Return (map (\<lambda>i. (int i, take js (drop (i * js) items)))
                     [0 ..< min wc (Suc (length items div js))])"
proof -
  have n: "0 < length items" using assms(1) by simp
  have wc: "0 < wc" using n assms(2) by (simp add: wc_def)
  have count: "(if maxWorkers > int (length items) then int (length items) else maxWorkers) = int wc"
    using assms(2) by (auto simp: wc_def min_def)
  have js: "0 < js" unfolding js_def by (rule ceilDiv_pos [OF wc n])
  have "parallelizeJobs maxWorkers items = parallelizeLoop (int wc) (int js) 0 items"
    using n wc unfolding parallelizeJobs_def count Let_def js_def jobSize_int [OF wc] by simp
  also have "\<dots> = parallelizeLoop (int wc) (int js) (int 0) items" by simp
  also have "\<dots> = Return (map (\<lambda>i. (int i, take js (drop (i * js) items)))
                     [0 ..< min wc (Suc (length items div js))])"
    unfolding parallelizeLoop_closed started_workers [OF js] ..
  finally show ?thesis .
qed

lemma started_bounds:
  assumes "0 < wc" and "0 < js" and "N \<le> wc * js"
  defines "k \<equiv> min wc (Suc (N div js))"
  shows "0 < k" and "k \<le> wc" and "N \<le> k * js" and "(k - 1) * js \<le> N"
proof -
  show "0 < k" using assms(1) by (simp add: k_def)
  show "k \<le> wc" by (simp add: k_def)
  have "N < Suc (N div js) * js"
    using assms(2) by (metis dividend_less_div_times add.commute mult.commute mult_Suc)
  then show "N \<le> k * js"
    using assms(3) by (cases "wc \<le> Suc (N div js)") (simp_all add: k_def min_def mult.commute)
  have "k - 1 \<le> N div js" by (simp add: k_def)
  then show "(k - 1) * js \<le> N"
    using assms(2) by (simp add: less_eq_div_iff_mult_less_eq)
qed

lemma goroutine_eq:
  "goroutine fn worker jobItems =
     ((fst (fn worker jobItems),
       case snd (fn worker jobItems) of Panic err \<Rightarrow> [err] | Return u \<Rightarrow> []), Return ())"
  by (simp add: goroutine_def split: prod.splits go.splits)

lemma waitAll_returned:
  "(\<And>r. r \<in> set rs \<Longrightarrow> snd r = Return ()) \<Longrightarrow> waitAll rs = Return (map fst rs)"
proof (induction rs rule: waitAll.induct)
  case 1
  show ?case by simp
next
  case (2 x v rs)
  from "2.prems" [of "(x, Panic v)"] show ?case by simp
next
  case (3 x u rs)
  then show ?case by simp
qed

lemma parallelize_eq:
  "parallelize maxWorkers items fn =
     (case parallelizeJobs maxWorkers items of
        Panic v \<Rightarrow> Panic v
      | Return jobs \<Rightarrow>
          Return (map (\<lambda>(worker, jobItems).
                    (fst (fn worker jobItems),
                     case snd (fn worker jobItems) of Panic err \<Rightarrow> [err] | Return u \<Rightarrow> []))
                  jobs))"
proof (cases "parallelizeJobs maxWorkers items")
  case (Panic v)
  then show ?thesis by (simp add: parallelize_def)
next
  case (Return jobs)
  have "waitAll (map (\<lambda>(worker, jobItems). goroutine fn worker jobItems) jobs) =
        Return (map fst (map (\<lambda>(worker, jobItems). goroutine fn worker jobItems) jobs))"
    by (rule waitAll_returned) (auto simp: goroutine_eq)
  then show ?thesis
    using Return by (simp add: parallelize_def goroutine_eq case_prod_beta cong: map_cong)
qed

lemma jobs_example: "parallelizeJobs 2 [1, 2, 3 :: nat] = Return [(0, [1, 2]), (1, [3])]"
  by (simp add: parallelizeJobs_def parallelizeLoop.simps slice_def signed_divide_int_def
      signed_modulo_int_def)

text \<open>
  C4. For a non-empty list of \<open>N\<close> items and a worker limit \<open>W > 0\<close>, \<open>parallelize\<close>
  starts at least one and at most \<open>W\<close> jobs; job \<open>i\<close> is worker \<open>i\<close> with the items from
  position \<open>i * s\<close> on, at most \<open>s\<close> of them, where \<open>s\<close> is the ceiling of
  \<open>N / min(W, N)\<close>. Every job but the last holds exactly \<open>s\<close> items, the last at most
  \<open>s\<close> (it is empty when an earlier job ends the list, as for \<open>N = 18\<close>, \<open>W = 16\<close>); the
  jobs in order concatenate to the list, so each item is in one job, once. The function
  is run once for each job, on that job's worker number and items: the result lists,
  job by job, the effects of the function on exactly those arguments; a function that
  reports the items it is given reports the whole list, each item once, in order.
\<close>

theorem parallelize_partition:
  assumes "items \<noteq> []" and "0 < maxWorkers"
  shows "\<exists>jobs.
      parallelizeJobs maxWorkers items = Return jobs \<and>
      jobs \<noteq> [] \<and> int (length jobs) \<le> maxWorkers \<and>
      concat (map snd jobs) = items \<and>
      (\<forall>i < length jobs.
         jobs ! i =
           (int i,
            take (ceilDiv (length items) (min (nat maxWorkers) (length items)))
              (drop (i * ceilDiv (length items) (min (nat maxWorkers) (length items))) items))) \<and>
      (\<forall>i. Suc i < length jobs \<longrightarrow>
         length (snd (jobs ! i)) = ceilDiv (length items) (min (nat maxWorkers) (length items))) \<and>
      length (snd (last jobs)) \<le> ceilDiv (length items) (min (nat maxWorkers) (length items)) \<and>
      parallelize maxWorkers items fn =
        Return (map (\<lambda>(worker, jobItems).
                  (fst (fn worker jobItems),
                   case snd (fn worker jobItems) of Panic err \<Rightarrow> [err] | Return u \<Rightarrow> []))
                jobs) \<and>
      (\<exists>seen. parallelize maxWorkers items (\<lambda>worker jobItems. (jobItems, Return ())) = Return seen \<and>
         concat (map fst seen) = items)"
proof -
  define wc where "wc = min (nat maxWorkers) (length items)"
  define js where "js = ceilDiv (length items) wc"
  define k where "k = min wc (Suc (length items div js))"
  define jobs where "jobs = map (\<lambda>i. (int i, take js (drop (i * js) items))) [0 ..< k]"
  have n: "0 < length items" using assms(1) by simp
  have wc: "0 < wc" using n assms(2) by (simp add: wc_def)
  have js: "0 < js" unfolding js_def by (rule ceilDiv_pos [OF wc n])
  have cover: "length items \<le> wc * js" unfolding js_def by (rule ceilDiv_covers [OF wc])
  note b = started_bounds [OF wc js cover, folded k_def]
  have closed: "parallelizeJobs maxWorkers items = Return jobs"
    unfolding jobs_def k_def js_def wc_def by (rule parallelizeJobs_closed [OF assms])
  have len: "length jobs = k" by (simp add: jobs_def)
  have nonempty: "jobs \<noteq> []" using b(1) len by auto
  have "k \<le> nat maxWorkers" using b(2) by (simp add: wc_def)
  then have bound: "int (length jobs) \<le> maxWorkers" using len assms(2) by linarith
  have "concat (map snd jobs) = take (k * js) items"
    by (simp add: jobs_def comp_def concat_chunks)
  then have whole: "concat (map snd jobs) = items" using b(3) by simp
  have nth: "\<forall>i < length jobs. jobs ! i = (int i, take js (drop (i * js) items))"
    by (simp add: jobs_def)
  have full: "length (snd (jobs ! i)) = js" if "Suc i < length jobs" for i
  proof -
    have "Suc i \<le> k - 1" using that len by simp
    then have "Suc i * js \<le> (k - 1) * js" by (rule mult_le_mono1)
    then have "Suc i * js \<le> length items" using b(4) by simp
    then have "js \<le> length items - i * js" by simp
    moreover have "i < length jobs" using that by simp
    ultimately show ?thesis using nth by simp
  qed
  have "last jobs = jobs ! (k - 1)" using nonempty len by (simp add: last_conv_nth)
  then have lastc: "length (snd (last jobs)) \<le> js" using nth len b(1) by simp
  have run: "parallelize maxWorkers items fn =
        Return (map (\<lambda>(worker, jobItems).
                  (fst (fn worker jobItems),
                   case snd (fn worker jobItems) of Panic err \<Rightarrow> [err] | Return u \<Rightarrow> []))
                jobs)"
    unfolding parallelize_eq closed by simp
  have "parallelize maxWorkers items (\<lambda>worker jobItems. (jobItems, Return ())) =
        Return (map (\<lambda>(worker, jobItems). (jobItems, [])) jobs)"
    unfolding parallelize_eq closed by simp
  moreover have "concat (map fst (map (\<lambda>(worker, jobItems). (jobItems, [])) jobs)) =
        concat (map snd jobs)"
    by (simp add: comp_def case_prod_beta)
  ultimately have echo: "\<exists>seen. parallelize maxWorkers items (\<lambda>worker jobItems. (jobItems, Return ())) =
        Return seen \<and> concat (map fst seen) = items"
    using whole by simp
  show ?thesis
    using closed nonempty bound whole nth full lastc run echo
    unfolding js_def wc_def by blast
qed

theorem parallelize_partition_witness:
  "[1, 2, 3 :: nat] \<noteq> [] \<and> (0 :: int) < 2 \<and>
   ceilDiv (length [1, 2, 3 :: nat]) (min (nat 2) (length [1, 2, 3 :: nat])) = 2 \<and>
   parallelizeJobs 2 [1, 2, 3 :: nat] = Return [(0, [1, 2]), (1, [3])] \<and>
   parallelize 2 [1, 2, 3 :: nat] (\<lambda>worker jobItems. (map (Pair worker) jobItems, Return ())) =
     Return [([(0, 1), (0, 2)], []), ([(1, 3)], [])]"
proof -
  have a: "[1, 2, 3 :: nat] \<noteq> []" and b: "(0 :: int) < 2" by simp_all
  have c: "ceilDiv (length [1, 2, 3 :: nat]) (min (nat 2) (length [1, 2, 3 :: nat])) = 2"
    by code_simp
  let ?fn = "\<lambda>(worker :: int) (jobItems :: nat list). (map (Pair worker) jobItems, Return ())"
  obtain jobs where j: "parallelizeJobs 2 [1, 2, 3 :: nat] = Return jobs"
    and r: "parallelize 2 [1, 2, 3] ?fn =
        Return (map (\<lambda>(worker, jobItems).
                  (fst (?fn worker jobItems),
                   case snd (?fn worker jobItems) of Panic err \<Rightarrow> [err] | Return u \<Rightarrow> []))
                jobs)"
    using parallelize_partition [OF a b, of ?fn] by blast
  have "jobs = [(0, [1, 2]), (1, [3])]" using j jobs_example by simp
  then have "parallelize 2 [1, 2, 3] ?fn = Return [([(0, 1), (0, 2)], []), ([(1, 3)], [])]"
    using r by simp
  then show ?thesis using a b c jobs_example by simp
qed

text \<open>
  C5. For a non-empty list and \<open>W > 0\<close>, whatever the function does on each chunk,
  \<open>parallelize\<close> returns to its caller and never panics. For every chunk the result holds
  the effects of the function's run on that chunk, whether or not the run of another
  chunk panicked; a run that panics has its panic value printed in its own task, and its
  effects up to the panic stand.
\<close>

theorem parallelize_recovers_panics:
  assumes "items \<noteq> []" and "0 < maxWorkers"
  shows "\<exists>jobs.
      parallelizeJobs maxWorkers items = Return jobs \<and>
      parallelize maxWorkers items fn =
        Return (map (\<lambda>(worker, jobItems).
                  (fst (fn worker jobItems),
                   case snd (fn worker jobItems) of Panic err \<Rightarrow> [err] | Return u \<Rightarrow> []))
                jobs)"
proof -
  obtain jobs where "parallelizeJobs maxWorkers items = Return jobs"
    using parallelizeJobs_closed [OF assms] by blast
  then show ?thesis
    by (simp add: parallelize_eq)
qed

theorem parallelize_recovers_panics_witness:
  "[1, 2, 3 :: nat] \<noteq> [] \<and> (0 :: int) < 2 \<and>
   panicOnFirst 0 [1, 2] = ([1], Panic ''boom'') \<and>
   parallelize 2 [1, 2, 3] panicOnFirst = Return [([1], [''boom'']), ([3], [])]"
proof -
  have a: "[1, 2, 3 :: nat] \<noteq> []" and b: "(0 :: int) < 2" by simp_all
  obtain jobs where j: "parallelizeJobs 2 [1, 2, 3 :: nat] = Return jobs"
    and r: "parallelize 2 [1, 2, 3] panicOnFirst =
        Return (map (\<lambda>(worker, jobItems).
                  (fst (panicOnFirst worker jobItems),
                   case snd (panicOnFirst worker jobItems) of Panic err \<Rightarrow> [err] | Return u \<Rightarrow> []))
                jobs)"
    using parallelize_recovers_panics [OF a b, of panicOnFirst] by blast
  have "jobs = [(0, [1, 2]), (1, [3])]" using j jobs_example by simp
  then have "parallelize 2 [1, 2, 3] panicOnFirst = Return [([1], [''boom'']), ([3], [])]"
    using r by (simp add: panicOnFirst_def)
  then show ?thesis using a b by (simp add: panicOnFirst_def)
qed

end
